theory Spec2Isabelle
  imports
    Complex_Main
    "HOL-Library.AList"
    "HOL-Library.Char_ord"
    "HOL-Library.List_Lexorder"
    "HOL-Library.Product_Lexorder"
begin

section \<open>Python values used by app.py\<close>

text \<open>
  The exceptions that the statements of \<^verbatim>\<open>app.py\<close> can raise. \<open>ValueError\<close> is what
  \<^verbatim>\<open>json.load\<close> raises on a file that is not JSON.
\<close>

datatype py_error = IndexError | KeyError | AttributeError | ZeroDivisionError | ValueError

text \<open>
  A \<^verbatim>\<open>dict\<close> is an association list with distinct keys in insertion order (the order in
  which \<^verbatim>\<open>for name in d\<close> and \<^verbatim>\<open>d.items()\<close> visit it). \<open>AList.update\<close> is
  \<^verbatim>\<open>d[k] = v\<close>: it overwrites the value of a present key in place and appends an absent key.
\<close>

type_synonym ('k, 'v) dict = "('k \<times> 'v) list"

definition contains :: "('k, 'v) dict \<Rightarrow> 'k \<Rightarrow> bool" where
  "contains d k = (map_of d k \<noteq> None)"

text \<open>\<^verbatim>\<open>if k not in d: d[k] = 0\<close>\<close>

definition init_zero :: "(string, int) dict \<Rightarrow> string \<Rightarrow> (string, int) dict" where
  "init_zero d k = (if \<not> contains d k then AList.update k 0 d else d)"

text \<open>\<^verbatim>\<open>d[k] += v\<close>: reads \<^verbatim>\<open>d[k]\<close> (KeyError when absent), then stores the sum.\<close>

definition iadd :: "(string, int) dict \<Rightarrow> string \<Rightarrow> int \<Rightarrow> py_error + (string, int) dict" where
  "iadd d k v = (case map_of d k of
                   None \<Rightarrow> Inl KeyError
                 | Some c \<Rightarrow> Inr (AList.update k (c + v) d))"

text \<open>
  Text is modelled as a string of ASCII characters. \<open>is_space\<close> is \<^verbatim>\<open>str.isspace\<close> on
  that range, \<open>lower\<close> is \<^verbatim>\<open>str.lower\<close>, \<open>strip\<close> is \<^verbatim>\<open>str.strip()\<close> and
  \<open>split\<close> is \<^verbatim>\<open>str.split()\<close> with no argument: words are the maximal runs of
  characters that are not whitespace, and no word is empty.
\<close>

definition is_space :: "char \<Rightarrow> bool" where
  "is_space c = (let n = (of_char c :: nat) in (9 \<le> n \<and> n \<le> 13) \<or> (28 \<le> n \<and> n \<le> 32))"

definition lower_char :: "char \<Rightarrow> char" where
  "lower_char c = (let n = (of_char c :: nat) in if 65 \<le> n \<and> n \<le> 90 then char_of (n + 32) else c)"

definition lower :: "string \<Rightarrow> string" where
  "lower s = map lower_char s"

definition strip :: "string \<Rightarrow> string" where
  "strip s = rev (dropWhile is_space (rev (dropWhile is_space s)))"

fun split_from :: "string \<Rightarrow> string \<Rightarrow> string list" where
  "split_from w [] = (if w = [] then [] else [w])"
| "split_from w (c # cs) =
     (if is_space c then (if w = [] then split_from [] cs else w # split_from [] cs)
      else split_from (w @ [c]) cs)"

definition split :: "string \<Rightarrow> string list" where
  "split s = split_from [] s"

text \<open>\<^verbatim>\<open>sep.join(xs)\<close>\<close>

fun join :: "string \<Rightarrow> string list \<Rightarrow> string" where
  "join sep [] = []"
| "join sep [x] = x"
| "join sep (x # y # ys) = x @ sep @ join sep (y # ys)"

text \<open>\<^verbatim>\<open>'{}'.format(n)\<close> for an integer: its decimal digits, with a sign when negative.\<close>

definition digit :: "nat \<Rightarrow> char" where
  "digit d = char_of (48 + d)"

function str_nat :: "nat \<Rightarrow> string" where
  "str_nat n = (if n < 10 then [digit n] else str_nat (n div 10) @ [digit (n mod 10)])"
  by pat_completeness auto
termination
  by (relation "measure (\<lambda>n. n)") auto

definition str_int :: "int \<Rightarrow> string" where
  "str_int i = (if i < 0 then CHR ''-'' # str_nat (nat (- i)) else str_nat (nat i))"

text \<open>\<^verbatim>\<open>'{}'.format(x)\<close> for a value that is a string or \<^verbatim>\<open>None\<close>.\<close>

definition str_opt :: "string option \<Rightarrow> string" where
  "str_opt x = (case x of None \<Rightarrow> ''None'' | Some s \<Rightarrow> s)"

text \<open>
  \<^verbatim>\<open>sorted(xs, key=f, reverse=True)\<close>: descending by key, and elements with equal keys keep
  the order they had in \<open>xs\<close>. The stable ascending sort of the reversed list, reversed.
\<close>

definition sorted_reverse :: "('a \<Rightarrow> 'k::linorder) \<Rightarrow> 'a list \<Rightarrow> 'a list" where
  "sorted_reverse f xs = rev (sort_key f (rev xs))"

text \<open>
  What the program takes from its libraries and its environment, as parameters:
  the \<open>n\<close>-th reading of \<^verbatim>\<open>time.asctime()\<close>, the \<open>n\<close>-th \<^verbatim>\<open>str(uuid.uuid4())\<close>,
  the true division \<^verbatim>\<open>p / g\<close> of two integers into the ordered type \<open>'f\<close> of floats, the
  format \<^verbatim>\<open>'{:0.3f}'\<close> of a float and the format \<^verbatim>\<open>'{}'\<close> of a dict of integers.
\<close>

record 'f py =
  asctime :: "nat \<Rightarrow> string"
  uuid4 :: "nat \<Rightarrow> string"
  truediv :: "int \<Rightarrow> int \<Rightarrow> 'f"
  format_3f :: "'f \<Rightarrow> string"
  format_dict :: "(string, int) dict \<Rightarrow> string"

section \<open>Records and sessions\<close>

text \<open>
  A row of \<^verbatim>\<open>app.history['games']\<close>, the dict that \<^verbatim>\<open>Record.json()\<close> returns, and a
  \<^verbatim>\<open>Session\<close>, which is also the shape of the dict that \<^verbatim>\<open>Session.json()\<close> returns
  (a snapshot by value, kept in \<^verbatim>\<open>app.history['sessions']\<close>).
\<close>

record game =
  timestamp :: string
  scoreboard :: "string list"
  game_session_id :: "string option"

record session =
  session_id :: string
  start_time :: string
  end_time :: "string option"
  game_count :: int

section \<open>Scoring\<close>

text \<open>\<^verbatim>\<open>get_wins\<close>: the loop over \<open>games\<close>, with the dict \<open>wins\<close> as accumulator.\<close>

fun get_wins_loop :: "(string, int) dict \<Rightarrow> game list \<Rightarrow> py_error + (string, int) dict" where
  "get_wins_loop wins [] = Inr wins"
| "get_wins_loop wins (result # rest) =
     (case scoreboard result of
        [] \<Rightarrow> Inl IndexError
      | first # _ \<Rightarrow>
          (case iadd (init_zero wins first) first 1 of
             Inl e \<Rightarrow> Inl e
           | Inr wins' \<Rightarrow> get_wins_loop wins' rest))"

definition get_wins :: "game list \<Rightarrow> py_error + (string, int) dict" where
  "get_wins games = get_wins_loop [] games"

text \<open>
  \<^verbatim>\<open>get_winner\<close>: \<^verbatim>\<open>sorted\<close> orders the \<open>(count, name)\<close> tuples lexicographically, and
  \<^verbatim>\<open>sorted_results[-1]\<close> raises IndexError on the empty list.
\<close>

definition get_winner :: "game list \<Rightarrow> py_error + string" where
  "get_winner games =
     (case get_wins games of
        Inl e \<Rightarrow> Inl e
      | Inr wins \<Rightarrow>
          (let sorted_results = sort (map (\<lambda>(k, v). (v, k)) wins)
           in if sorted_results = [] then Inl IndexError
              else Inr (snd (last sorted_results))))"

record stats =
  player_points :: "(string, int) dict"
  player_games :: "(string, int) dict"

text \<open>
  \<^verbatim>\<open>summarize\<close>: the inner loop over \<^verbatim>\<open>enumerate(scoreboard, 1)\<close> carries the rank \<open>n\<close>
  and both dicts; the outer loop runs it on every game.
\<close>

fun summarize_board ::
  "int \<Rightarrow> int \<Rightarrow> string list \<Rightarrow> stats \<Rightarrow> py_error + stats" where
  "summarize_board num_players n [] st = Inr st"
| "summarize_board num_players n (name # names) st =
     (case iadd (init_zero (player_points st) name) name (num_players - n) of
        Inl e \<Rightarrow> Inl e
      | Inr pp \<Rightarrow>
          (case iadd (init_zero (player_games st) name) name 1 of
             Inl e \<Rightarrow> Inl e
           | Inr pg \<Rightarrow>
               summarize_board num_players (n + 1) names
                 \<lparr>player_points = pp, player_games = pg\<rparr>))"

fun summarize_loop :: "stats \<Rightarrow> game list \<Rightarrow> py_error + stats" where
  "summarize_loop st [] = Inr st"
| "summarize_loop st (result # rest) =
     (case summarize_board (int (length (scoreboard result))) 1 (scoreboard result) st of
        Inl e \<Rightarrow> Inl e
      | Inr st' \<Rightarrow> summarize_loop st' rest)"

definition summarize :: "game list \<Rightarrow> py_error + stats" where
  "summarize games = summarize_loop \<lparr>player_points = [], player_games = []\<rparr> games"

text \<open>
  \<^verbatim>\<open>pretty_print\<close>, in two parts: \<open>points_per_game\<close> is the list of that name after the
  \<^verbatim>\<open>sorted\<close> call, and \<open>pretty_print\<close> formats it. The division raises ZeroDivisionError on a
  zero count; \<^verbatim>\<open>.get(name, 0.0)\<close> divides zero for a name without points.
\<close>

fun ppg_loop :: "'f py \<Rightarrow> stats \<Rightarrow> string list \<Rightarrow> py_error + (string \<times> 'f) list" where
  "ppg_loop lib st [] = Inr []"
| "ppg_loop lib st (name # names) =
     (case map_of (player_games st) name of
        None \<Rightarrow> Inl KeyError
      | Some g \<Rightarrow>
          if g = 0 then Inl ZeroDivisionError
          else (case ppg_loop lib st names of
                  Inl e \<Rightarrow> Inl e
                | Inr rest \<Rightarrow>
                    Inr ((name, truediv lib (case map_of (player_points st) name of
                                               None \<Rightarrow> 0 | Some p \<Rightarrow> p) g) # rest)))"

definition points_per_game :: "('f::linorder) py \<Rightarrow> stats \<Rightarrow> py_error + (string \<times> 'f) list" where
  "points_per_game lib st =
     (case ppg_loop lib st (map fst (player_games st)) of
        Inl e \<Rightarrow> Inl e
      | Inr ppg \<Rightarrow> Inr (sorted_reverse snd ppg))"

definition pretty_print :: "('f::linorder) py \<Rightarrow> stats \<Rightarrow> py_error + string" where
  "pretty_print lib st =
     (case points_per_game lib st of
        Inl e \<Rightarrow> Inl e
      | Inr ppg \<Rightarrow>
          Inr (join [CHR 0x0A] (map (\<lambda>(name, avg). name @ '': '' @ format_3f lib avg) ppg)))"

section \<open>The application state\<close>

text \<open>
  \<^verbatim>\<open>app.history\<close> is a dict with the keys \<^verbatim>\<open>games\<close> and \<^verbatim>\<open>sessions\<close>. A file holds
  either text that is not JSON or a JSON object, kept as the object that \<^verbatim>\<open>json.load\<close>
  returns for it: each of the two keys is present with its list, or absent. \<^verbatim>\<open>json.dump\<close>
  writes the object that has both keys of the history.
\<close>

record history =
  games :: "game list"
  sessions :: "session list"

record document =
  doc_games :: "game list option"
  doc_sessions :: "session list option"

datatype file_content = NotJson | Json document

definition json_dump :: "history \<Rightarrow> file_content" where
  "json_dump h = Json \<lparr>doc_games = Some (games h), doc_sessions = Some (sessions h)\<rparr>"

definition json_load :: "file_content \<Rightarrow> py_error + document" where
  "json_load f = (case f of NotJson \<Rightarrow> Inl ValueError | Json d \<Rightarrow> Inr d)"

text \<open>\<^verbatim>\<open>h.update(**d)\<close>: every key of \<open>d\<close> replaces the value that \<open>h\<close> has for it.\<close>

definition dict_update :: "history \<Rightarrow> document \<Rightarrow> history" where
  "dict_update h d =
     \<lparr>games = (case doc_games d of None \<Rightarrow> games h | Some g \<Rightarrow> g),
      sessions = (case doc_sessions d of None \<Rightarrow> sessions h | Some s \<Rightarrow> s)\<rparr>"

text \<open>
  The process-wide state: \<^verbatim>\<open>app.history\<close>, \<^verbatim>\<open>app.state['session']\<close>, the files on
  disk by name, and how many times the clock and the UUID generator have been read.
\<close>

record app =
  history :: history
  state_session :: "session option"
  files :: "string \<Rightarrow> file_content option"
  time_calls :: nat
  uuid_calls :: nat

definition DB_FILENAME :: string where
  "DB_FILENAME = ''game_history.json''"

text \<open>
  Lines 57 to 69: the history starts empty and, when the file exists, takes the keys of the
  document in it. \<open>load_history\<close> is that code for a file name, \<open>startup\<close> the state
  of the process after the module is loaded.
\<close>

definition load_history :: "string \<Rightarrow> (string \<Rightarrow> file_content option) \<Rightarrow> py_error + history" where
  "load_history filename fs =
     (let h = \<lparr>games = [], sessions = []\<rparr>
      in case fs filename of
           None \<Rightarrow> Inr h
         | Some f \<Rightarrow> (case json_load f of Inl e \<Rightarrow> Inl e | Inr d \<Rightarrow> Inr (dict_update h d)))"

definition startup :: "(string \<Rightarrow> file_content option) \<Rightarrow> py_error + app" where
  "startup fs =
     (case load_history DB_FILENAME fs of
        Inl e \<Rightarrow> Inl e
      | Inr h \<Rightarrow> Inr \<lparr>history = h, state_session = None, files = fs,
                      time_calls = 0, uuid_calls = 0\<rparr>)"

definition save_history :: "history \<Rightarrow> string \<Rightarrow> app \<Rightarrow> app" where
  "save_history h filename st = st\<lparr>files := (files st)(filename \<mapsto> json_dump h)\<rparr>"

text \<open>\<^verbatim>\<open>Session()\<close> reads the clock and draws a UUID.\<close>

definition Session :: "'f py \<Rightarrow> app \<Rightarrow> session \<times> app" where
  "Session lib st =
     (\<lparr>session_id = uuid4 lib (uuid_calls st), start_time = asctime lib (time_calls st),
       end_time = None, game_count = 0\<rparr>,
      st\<lparr>time_calls := Suc (time_calls st), uuid_calls := Suc (uuid_calls st)\<rparr>)"

definition this_session :: "'f py \<Rightarrow> app \<Rightarrow> session \<times> app" where
  "this_session lib st =
     (case state_session st of
        None \<Rightarrow> (let (s, st') = Session lib st in (s, st'\<lparr>state_session := Some s\<rparr>))
      | Some s \<Rightarrow> (s, st))"

text \<open>
  \<^verbatim>\<open>Session.end\<close> on the object that \<^verbatim>\<open>app.state['session']\<close> refers to: the assignment
  to \<^verbatim>\<open>end_time\<close> is seen there, and the dict returned is a copy of the fields.
\<close>

definition Session_end :: "'f py \<Rightarrow> session \<Rightarrow> app \<Rightarrow> session \<times> app" where
  "Session_end lib self st =
     (let self' = self\<lparr>end_time := Some (asctime lib (time_calls st))\<rparr>
      in (self', st\<lparr>state_session := Some self', time_calls := Suc (time_calls st)\<rparr>))"

text \<open>
  \<^verbatim>\<open>this_sessions_games\<close>: the \<^verbatim>\<open>lambda\<close> of the filter calls \<^verbatim>\<open>this_session()\<close>
  for every row.
\<close>

fun filter_rows :: "'f py \<Rightarrow> game list \<Rightarrow> app \<Rightarrow> game list \<times> app" where
  "filter_rows lib [] st = ([], st)"
| "filter_rows lib (row # rows) st =
     (let (s, st1) = this_session lib st;
          (rest, st2) = filter_rows lib rows st1
      in (if game_session_id row = Some (session_id s) then row # rest else rest, st2))"

definition this_sessions_games :: "'f py \<Rightarrow> app \<Rightarrow> game list \<times> app" where
  "this_sessions_games lib st = filter_rows lib (games (history st)) st"

section \<open>Commands\<close>

definition start_session :: "'f py \<Rightarrow> app \<Rightarrow> string \<times> app" where
  "start_session lib st =
     (let (s, st1) = this_session lib st in (''Session started at '' @ start_time s, st1))"

text \<open>
  \<^verbatim>\<open>end_session\<close>. An exception of \<^verbatim>\<open>get_winner\<close> leaves the function at line 112, with
  the state as the statements before it have made it.
\<close>

definition end_session :: "'f py \<Rightarrow> app \<Rightarrow> (py_error + string) \<times> app" where
  "end_session lib st =
     (let (s, st1) = this_session lib st;
          (closed, st2) = Session_end lib s st1;
          st3 = st2\<lparr>history := (history st2)\<lparr>sessions := sessions (history st2) @ [closed]\<rparr>\<rparr>;
          st4 = save_history (history st3) DB_FILENAME st3;
          (rows, st5) = this_sessions_games lib st4
      in case get_winner rows of
           Inl e \<Rightarrow> (Inl e, st5)
         | Inr winner \<Rightarrow>
             (let (sa, st6) = this_session lib st5;
                  (sb, st7) = this_session lib st6;
                  msg = ''Session ended at '' @ str_opt (end_time sa) @ '' after ''
                        @ str_int (game_count sb) @ '' games. Winner is '' @ winner @ ''!''
              in (Inr msg, st7\<lparr>state_session := None\<rparr>)))"

record response =
  resp_text :: string
  response_type :: string

definition jsonify :: "string \<Rightarrow> response" where
  "jsonify msg = \<lparr>resp_text = msg, response_type = ''in_channel''\<rparr>"

text \<open>
  \<^verbatim>\<open>manage_session\<close>, the handler of \<^verbatim>\<open>/session\<close>. Its argument is
  \<^verbatim>\<open>request.form.get('text')\<close>, \<^verbatim>\<open>None\<close> when the form has no such field.
\<close>

definition try_again :: string where
  "try_again = ''Try again! `/session` only accepts '' @ [CHR 0x27] @ ''start'' @ [CHR 0x27]
               @ '' and '' @ [CHR 0x27] @ ''end'' @ [CHR 0x27]"

definition manage_session :: "'f py \<Rightarrow> string option \<Rightarrow> app \<Rightarrow> (py_error + response) \<times> app" where
  "manage_session lib form_text st =
     (case form_text of
        None \<Rightarrow> (Inl AttributeError, st)
      | Some t \<Rightarrow>
          (let command = strip (lower t);
               (r, st1) = (if command = ''start''
                           then (let (msg, st') = start_session lib st in (Inr msg, st'))
                           else if command = ''end'' then end_session lib st
                           else (Inr try_again, st))
           in case r of
                Inl e \<Rightarrow> (Inl e, st1)
              | Inr msg \<Rightarrow> (Inr (jsonify msg), save_history (history st1) DB_FILENAME st1)))"

text \<open>
  \<^verbatim>\<open>log_result\<close>, the handler of \<^verbatim>\<open>/gameover\<close>. \<^verbatim>\<open>Record(...)\<close> reads the clock after
  its arguments are evaluated; \<^verbatim>\<open>scoreboard[0]\<close> at line 213 raises IndexError on the empty
  list, after the save of line 210.
\<close>

definition stat_str :: "string \<Rightarrow> string \<Rightarrow> string" where
  "stat_str wins pts =
     [CHR 0x0A] @ ''    *Session wins:* '' @ wins @ [CHR 0x0A, CHR 0x0A]
     @ ''    *All Time Points:*'' @ [CHR 0x0A] @ ''    '' @ pts @ [CHR 0x0A] @ ''    ''"

definition log_result ::
  "('f::linorder) py \<Rightarrow> string option \<Rightarrow> app \<Rightarrow> (py_error + response) \<times> app" where
  "log_result lib form_text st =
     (case form_text of
        None \<Rightarrow> (Inl AttributeError, st)
      | Some t \<Rightarrow>
          (let board = split t;
               (s, st1) = this_session lib st;
               record = \<lparr>timestamp = asctime lib (time_calls st1), scoreboard = board,
                         game_session_id = Some (session_id s)\<rparr>;
               st2 = st1\<lparr>time_calls := Suc (time_calls st1)\<rparr>;
               (s', st3) = this_session lib st2;
               st4 = st3\<lparr>state_session := Some (s'\<lparr>game_count := game_count s' + 1\<rparr>)\<rparr>;
               st5 = st4\<lparr>history := (history st4)\<lparr>games := games (history st4) @ [record]\<rparr>\<rparr>;
               st6 = save_history (history st5) DB_FILENAME st5
           in case board of
                [] \<Rightarrow> (Inl IndexError, st6)
              | winner # rest \<Rightarrow>
                  (let losers = join '' and '' rest;
                       (rows, st7) = this_sessions_games lib st6
                   in case get_wins rows of
                        Inl e \<Rightarrow> (Inl e, st7)
                      | Inr wins \<Rightarrow>
                          (case summarize (games (history st7)) of
                             Inl e \<Rightarrow> (Inl e, st7)
                           | Inr stats \<Rightarrow>
                               (case pretty_print lib stats of
                                  Inl e \<Rightarrow> (Inl e, st7)
                                | Inr pts \<Rightarrow>
                                    (Inr (jsonify (''Got it! '' @ winner @ '' beat '' @ losers
                                                   @ [CHR 0x0A]
                                                   @ stat_str (format_dict lib wins) pts)),
                                     st7))))))"

text \<open>
  A run of \<^verbatim>\<open>/gameover\<close> requests: the server answers a request whose handler raised with
  an error page and keeps the state for the next one.
\<close>

fun log_results :: "('f::linorder) py \<Rightarrow> string option list \<Rightarrow> app \<Rightarrow> app" where
  "log_results lib [] st = st"
| "log_results lib (t # ts) st = log_results lib ts (snd (log_result lib t st))"

text \<open>A sample environment, with exact rationals standing for the floats.\<close>

definition sample_lib :: "rat py" where
  "sample_lib =
     \<lparr>asctime = (\<lambda>n. ''time-'' @ str_nat n), uuid4 = (\<lambda>n. ''uuid-'' @ str_nat n),
      truediv = (\<lambda>p g. of_int p / of_int g), format_3f = (\<lambda>x. ''?''),
      format_dict = (\<lambda>d. ''?'')\<rparr>"

definition mk_game :: "string list \<Rightarrow> game" where
  "mk_game board = \<lparr>timestamp = '''', scoreboard = board, game_session_id = None\<rparr>"

text \<open>
  Sample states: \<open>fresh_app\<close> is the process started without a file, \<open>sample_app\<close> one
  whose history holds a game of an earlier session.
\<close>

definition fresh_app :: app where
  "fresh_app = \<lparr>history = \<lparr>games = [], sessions = []\<rparr>, state_session = None,
                 files = Map.empty, time_calls = 0, uuid_calls = 0\<rparr>"

definition other_game :: game where
  "other_game = \<lparr>timestamp = ''Mon Jan  2 10:00:00 2017'', scoreboard = [''A'', ''B''],
                  game_session_id = Some ''other''\<rparr>"

definition sample_app :: app where
  "sample_app = \<lparr>history = \<lparr>games = [other_game], sessions = []\<rparr>, state_session = None,
                 files = Map.empty, time_calls = 0, uuid_calls = 0\<rparr>"

text \<open>
  The session \<open>s\<close> counts its games: \<open>game_count\<close> is the number of rows of
  \<^verbatim>\<open>app.history['games']\<close> that carry its \<open>session_id\<close>.
\<close>

definition counted :: "app \<Rightarrow> session \<Rightarrow> bool" where
  "counted st s =
     (game_count s
      = int (length (filter (\<lambda>g. game_session_id g = Some (session_id s)) (games (history st)))))"

section \<open>Scoring, as the specification words it\<close>

text \<open>
  The value that \<^verbatim>\<open>d.get(k, 0)\<close> reads, and the dict after
  \<^verbatim>\<open>if k not in d: d[k] = 0\<close> followed by \<^verbatim>\<open>d[k] += v\<close>.
\<close>

definition count0 :: "(string, int) dict \<Rightarrow> string \<Rightarrow> int" where
  "count0 d k = (case map_of d k of None \<Rightarrow> 0 | Some c \<Rightarrow> c)"

definition bump :: "(string, int) dict \<Rightarrow> string \<Rightarrow> int \<Rightarrow> (string, int) dict" where
  "bump d k v = AList.update k (count0 d k + v) (init_zero d k)"

text \<open>
  The points of player \<open>p\<close> in one scoreboard of size \<open>N\<close>: \<open>N - n\<close> for every rank \<open>n\<close>
  (counted from 1) at which \<open>p\<close> stands; the games of \<open>p\<close> in it: one for every appearance.
  The totals add them up over all games. \<open>appears\<close>: \<open>p\<close> stands in some scoreboard.
\<close>

definition board_points :: "string list \<Rightarrow> string \<Rightarrow> int" where
  "board_points board p =
     (\<Sum>(n, name) \<leftarrow> enumerate 1 board. if name = p then int (length board) - int n else 0)"

definition board_games :: "string list \<Rightarrow> string \<Rightarrow> int" where
  "board_games board p = int (count_list board p)"

definition total_points :: "game list \<Rightarrow> string \<Rightarrow> int" where
  "total_points gs p = (\<Sum>g \<leftarrow> gs. board_points (scoreboard g) p)"

definition total_games :: "game list \<Rightarrow> string \<Rightarrow> int" where
  "total_games gs p = (\<Sum>g \<leftarrow> gs. board_games (scoreboard g) p)"

definition appears :: "game list \<Rightarrow> string \<Rightarrow> bool" where
  "appears gs p = (p \<in> set (concat (map scoreboard gs)))"

text \<open>
  The wins of player \<open>p\<close>: the number of games whose scoreboard has \<open>p\<close> in first place.
\<close>

definition first_place :: "game \<Rightarrow> string option" where
  "first_place g = (case scoreboard g of [] \<Rightarrow> None | p # _ \<Rightarrow> Some p)"

definition win_count :: "game list \<Rightarrow> string \<Rightarrow> int" where
  "win_count gs p = int (length (filter (\<lambda>g. first_place g = Some p) gs))"

text \<open>
  What one run of the inner loop of \<^verbatim>\<open>summarize\<close> (from rank \<open>k\<close>, on \<open>names\<close>) and what
  the outer loop (on the games \<open>gs\<close>) add to the two dicts, from \<open>st\<close> to \<open>st'\<close>.
\<close>

definition board_ok :: "int \<Rightarrow> nat \<Rightarrow> string list \<Rightarrow> stats \<Rightarrow> stats \<Rightarrow> bool" where
  "board_ok N k names st st' =
     ((\<forall>p. count0 (player_points st') p = count0 (player_points st) p
              + (\<Sum>(n, name) \<leftarrow> enumerate k names. if name = p then N - int n else 0))
     \<and> (\<forall>p. count0 (player_games st') p = count0 (player_games st) p + int (count_list names p))
     \<and> fst ` set (player_points st') = fst ` set (player_points st) \<union> set names
     \<and> fst ` set (player_games st') = fst ` set (player_games st) \<union> set names
     \<and> (distinct (map fst (player_points st)) \<longrightarrow> distinct (map fst (player_points st')))
     \<and> (distinct (map fst (player_games st)) \<longrightarrow> distinct (map fst (player_games st'))))"

definition loop_ok :: "game list \<Rightarrow> stats \<Rightarrow> stats \<Rightarrow> bool" where
  "loop_ok gs st st' =
     ((\<forall>p. count0 (player_points st') p = count0 (player_points st) p + total_points gs p)
     \<and> (\<forall>p. count0 (player_games st') p = count0 (player_games st) p + total_games gs p)
     \<and> fst ` set (player_points st') = fst ` set (player_points st) \<union> {p. appears gs p}
     \<and> fst ` set (player_games st') = fst ` set (player_games st) \<union> {p. appears gs p}
     \<and> (distinct (map fst (player_points st)) \<longrightarrow> distinct (map fst (player_points st')))
     \<and> (distinct (map fst (player_games st)) \<longrightarrow> distinct (map fst (player_games st'))))"

text \<open>
  The winner as the specification words it: the \<open>(win_count, name)\<close> pairs of the players
  with a win, sorted ascending, and the name of the last pair.
\<close>

definition winners_table :: "game list \<Rightarrow> (int \<times> string) list" where
  "winners_table gs = map (\<lambda>q. (win_count gs q, q)) (remdups (List.map_filter first_place gs))"

definition winner_spec :: "game list \<Rightarrow> string" where
  "winner_spec gs = snd (last (sort (winners_table gs)))"

text \<open>What the loop of \<^verbatim>\<open>get_wins\<close> on the games \<open>gs\<close> adds to the dict, from \<open>w\<close> to \<open>w'\<close>.\<close>

definition wins_ok :: "game list \<Rightarrow> (string, int) dict \<Rightarrow> (string, int) dict \<Rightarrow> bool" where
  "wins_ok gs w w' =
     ((\<forall>p. count0 w' p = count0 w p + win_count gs p)
     \<and> fst ` set w' = fst ` set w \<union> {p. 0 < win_count gs p}
     \<and> (distinct (map fst w) \<longrightarrow> distinct (map fst w')))"

text \<open>The average of player \<open>p\<close> over the games \<open>gs\<close>, by the division of the environment.\<close>

definition average :: "'f py \<Rightarrow> game list \<Rightarrow> string \<Rightarrow> string \<times> 'f" where
  "average lib gs p = (p, truediv lib (total_points gs p) (total_games gs p))"

definition ABA :: "game list" where
  "ABA = map mk_game [[''A'', ''B''], [''B'', ''A''], [''A'', ''B'']]"

section \<open>Facts about the scoring functions\<close>

lemma iadd_init_zero: "iadd (init_zero d k) k v = Inr (bump d k v)"
  by (simp add: iadd_def init_zero_def contains_def bump_def count0_def update_conv'
           split: option.splits)

lemma map_of_bump: "map_of (bump d k v) = (map_of d)(k \<mapsto> count0 d k + v)"
  by (auto simp: bump_def init_zero_def contains_def update_conv')

lemma count0_bump: "count0 (bump d k v) q = count0 d q + (if q = k then v else 0)"
  by (simp add: count0_def map_of_bump)

lemma keys_bump: "fst ` set (bump d k v) = insert k (fst ` set d)"
  by (auto simp: bump_def init_zero_def dom_update)

lemma distinct_bump: "distinct (map fst d) \<Longrightarrow> distinct (map fst (bump d k v))"
  by (simp add: bump_def init_zero_def distinct_update)

lemma map_of_count0:
  "map_of d p = (if p \<in> fst ` set d then Some (count0 d p) else None)"
  by (cases "map_of d p") (auto simp: count0_def map_of_eq_None_iff dest: map_of_SomeD intro: rev_image_eqI)



lemma summarize_board_step:
  "summarize_board N (int k) (name # names) st
     = summarize_board N (int (Suc k)) names
         \<lparr>player_points = bump (player_points st) name (N - int k),
          player_games = bump (player_games st) name 1\<rparr>"
proof -
  have "int k + 1 = int (Suc k)" by simp
  then show ?thesis by (simp only: summarize_board.simps iadd_init_zero sum.case)
qed



lemma board_ok_Cons:
  assumes "board_ok N (Suc k) names
             \<lparr>player_points = bump (player_points st) name (N - int k),
              player_games = bump (player_games st) name 1\<rparr> st'"
  shows "board_ok N k (name # names) st st'"
  using assms unfolding board_ok_def
  by (simp add: count0_bump keys_bump distinct_bump)

lemma summarize_board_effect:
  "\<exists>st'. summarize_board N (int k) names st = Inr st' \<and> board_ok N k names st st'"
proof (induction names arbitrary: k st)
  case Nil
  then show ?case by (simp add: board_ok_def)
next
  case (Cons name names)
  let ?st1 = "\<lparr>player_points = bump (player_points st) name (N - int k),
               player_games = bump (player_games st) name 1\<rparr>"
  from Cons.IH [of "Suc k" ?st1] obtain st' where
    r: "summarize_board N (int (Suc k)) names ?st1 = Inr st'"
    and ok: "board_ok N (Suc k) names ?st1 st'"
    by blast
  have "summarize_board N (int k) (name # names) st = Inr st'"
    using summarize_board_step [of N k name names st] r by simp
  with board_ok_Cons [OF ok] show ?case by blast
qed


lemma loop_ok_Cons:
  assumes "board_ok (int (length (scoreboard g))) 1 (scoreboard g) st st1"
    and "loop_ok gs st1 st'"
  shows "loop_ok (g # gs) st st'"
  using assms unfolding board_ok_def loop_ok_def
  by (auto simp: total_points_def total_games_def board_points_def board_games_def appears_def)

lemma summarize_loop_effect:
  "\<exists>st'. summarize_loop st gs = Inr st' \<and> loop_ok gs st st'"
proof (induction gs arbitrary: st)
  case Nil
  then show ?case by (simp add: loop_ok_def total_points_def total_games_def appears_def)
next
  case (Cons g gs)
  from summarize_board_effect [of "int (length (scoreboard g))" 1 "scoreboard g" st]
  obtain st1 where
    b: "summarize_board (int (length (scoreboard g))) 1 (scoreboard g) st = Inr st1"
    and ok1: "board_ok (int (length (scoreboard g))) 1 (scoreboard g) st st1"
    by auto
  from Cons.IH [of st1] obtain st' where
    r: "summarize_loop st1 gs = Inr st'" and ok: "loop_ok gs st1 st'"
    by blast
  have "summarize_loop st (g # gs) = Inr st'"
    using b r by simp
  with loop_ok_Cons [OF ok1 ok] show ?case by blast
qed

lemma summarize_ABC:
  "summarize (map mk_game [[''A'', ''B'', ''C'']])
     = Inr \<lparr>player_points = [(''A'', 2), (''B'', 1), (''C'', 0)],
            player_games = [(''A'', 1), (''B'', 1), (''C'', 1)]\<rparr>"
  by (simp add: summarize_def mk_game_def iadd_def init_zero_def contains_def)

lemma rank_sum_absent:
  "p \<notin> set names \<Longrightarrow>
   (\<Sum>(n, name) \<leftarrow> enumerate k names. if name = p then N - int n else 0) = 0"
  by (induction names arbitrary: k) auto

lemma rank_sum_at:
  "distinct names \<Longrightarrow> i < length names \<Longrightarrow>
   (\<Sum>(n, name) \<leftarrow> enumerate k names. if name = names ! i then N - int n else 0)
     = N - int (k + i)"
proof (induction names arbitrary: k i)
  case Nil
  then show ?case by simp
next
  case (Cons a names)
  show ?case
  proof (cases i)
    case 0
    with Cons.prems show ?thesis by (simp add: rank_sum_absent)
  next
    case (Suc j)
    with Cons.prems have j: "j < length names" and d: "distinct names"
      and ne: "a \<noteq> names ! j" by auto
    from Cons.IH [OF d j, of "Suc k"] ne Suc show ?thesis by simp
  qed
qed

lemma board_points_rank:
  "distinct board \<Longrightarrow> n \<in> {1..length board} \<Longrightarrow>
   board_points board (board ! (n - 1)) = int (length board) - int n"
proof -
  assume d: "distinct board" and n: "n \<in> {1..length board}"
  then have i: "n - 1 < length board" and k: "1 + (n - 1) = n" by auto
  from rank_sum_at [OF d i, where k = 1 and N = "int (length board)"] k
  show ?thesis by (simp add: board_points_def)
qed

text \<open>
  C9. For every list of games, \<open>summarize\<close> returns, and in its result every player who
  stands in some scoreboard has as points the sum, over all games and all ranks \<open>n\<close> (from
  1) at which the player stands in a scoreboard of size \<open>N\<close>, of \<open>N - n\<close>, and as games
  the number of appearances; other players are absent from both dicts. In a scoreboard without
  repeated names the player at rank \<open>n\<close> has \<open>N - n\<close> points. On the single game
  A, B, C the points are A 2, B 1, C 0 and the games are 1 each.
\<close>

theorem summarize_totals:
  "\<exists>st. summarize gs = Inr st
      \<and> (\<forall>p. map_of (player_points st) p
               = (if appears gs p then Some (total_points gs p) else None))
      \<and> (\<forall>p. map_of (player_games st) p
               = (if appears gs p then Some (total_games gs p) else None))
      \<and> distinct (map fst (player_points st)) \<and> distinct (map fst (player_games st))
      \<and> (\<forall>board n. distinct board \<longrightarrow> n \<in> {1..length board} \<longrightarrow>
             board_points board (board ! (n - 1)) = int (length board) - int n)
      \<and> summarize (map mk_game [[''A'', ''B'', ''C'']])
          = Inr \<lparr>player_points = [(''A'', 2), (''B'', 1), (''C'', 0)],
                 player_games = [(''A'', 1), (''B'', 1), (''C'', 1)]\<rparr>"
proof -
  from summarize_loop_effect [of "\<lparr>player_points = [], player_games = []\<rparr>" gs]
  obtain st where r: "summarize gs = Inr st"
    and ok: "loop_ok gs \<lparr>player_points = [], player_games = []\<rparr> st"
    by (auto simp: summarize_def)
  from ok have pts: "\<And>p. count0 (player_points st) p = total_points gs p"
    and gms: "\<And>p. count0 (player_games st) p = total_games gs p"
    and kp: "fst ` set (player_points st) = {p. appears gs p}"
    and kg: "fst ` set (player_games st) = {p. appears gs p}"
    and dp: "distinct (map fst (player_points st))"
    and dg: "distinct (map fst (player_games st))"
    by (simp_all add: loop_ok_def count0_def)
  have a: "\<forall>p. map_of (player_points st) p
                = (if appears gs p then Some (total_points gs p) else None)"
    by (simp add: map_of_count0 [of "player_points st"] kp pts)
  have b: "\<forall>p. map_of (player_games st) p
                = (if appears gs p then Some (total_games gs p) else None)"
    by (simp add: map_of_count0 [of "player_games st"] kg gms)
  have c: "\<forall>board n. distinct board \<longrightarrow> n \<in> {1..length board} \<longrightarrow>
             board_points board (board ! (n - 1)) = int (length board) - int n"
    using board_points_rank by blast
  from r a b dp dg c summarize_ABC show ?thesis by blast
qed

theorem summarize_totals_witness:
  "distinct [''A'', ''B'', ''C''] \<and> (2::nat) \<in> {1..length [''A'', ''B'', ''C'']}
   \<and> board_points [''A'', ''B'', ''C''] ''B'' = 1
   \<and> summarize (map mk_game [[''A'', ''B'', ''C'']])
       = Inr \<lparr>player_points = [(''A'', 2), (''B'', 1), (''C'', 0)],
              player_games = [(''A'', 1), (''B'', 1), (''C'', 1)]\<rparr>"
proof -
  have h1: "distinct [''A'', ''B'', ''C'']" by simp
  have h2: "(2::nat) \<in> {1..length [''A'', ''B'', ''C'']}" by simp
  from summarize_totals [of "[]"]
  have "\<forall>board n. distinct board \<longrightarrow> n \<in> {1..length board} \<longrightarrow>
             board_points board (board ! (n - 1)) = int (length board) - int n"
    and s: "summarize (map mk_game [[''A'', ''B'', ''C'']])
       = Inr \<lparr>player_points = [(''A'', 2), (''B'', 1), (''C'', 0)],
              player_games = [(''A'', 1), (''B'', 1), (''C'', 1)]\<rparr>"
    by blast+
  with h1 h2 have "board_points [''A'', ''B'', ''C''] ([''A'', ''B'', ''C''] ! (2 - 1))
                     = int (length [''A'', ''B'', ''C'']) - int 2"
    by blast
  then have "board_points [''A'', ''B'', ''C''] ''B'' = 1" by simp
  with h1 h2 s show ?thesis by blast
qed

lemma sorted_last_greatest:
  "sorted xs \<Longrightarrow> x \<in> set xs \<Longrightarrow> x \<le> last xs"
proof (induction xs)
  case Nil
  then show ?case by simp
next
  case (Cons y ys)
  then show ?case by (cases ys) auto
qed

lemma last_sort_greatest:
  assumes "xs \<noteq> []"
  shows "last (sort xs) \<in> set xs" and "\<And>x. x \<in> set xs \<Longrightarrow> x \<le> last (sort xs)"
proof -
  have ne: "sort xs \<noteq> []" using assms by (metis set_sort set_empty)
  from last_in_set [OF ne] show "last (sort xs) \<in> set xs" by simp
  fix x assume "x \<in> set xs"
  then show "x \<le> last (sort xs)"
    using sorted_last_greatest [of "sort xs" x] by simp
qed

lemma last_sort_cong:
  assumes "set xs = set ys" and "xs \<noteq> []"
  shows "last (sort xs) = last (sort (ys :: ('a::linorder) list))"
proof -
  have ys: "ys \<noteq> []" using assms by auto
  have a: "last (sort xs) \<le> last (sort ys)"
    using last_sort_greatest(1) [OF assms(2)] last_sort_greatest(2) [OF ys] assms(1) by simp
  have b: "last (sort ys) \<le> last (sort xs)"
    using last_sort_greatest(1) [OF ys] last_sort_greatest(2) [OF assms(2)] assms(1) by simp
  from a b show ?thesis by simp
qed

lemma set_sorted_reverse: "set (sorted_reverse f xs) = set xs"
  by (simp add: sorted_reverse_def)

lemma distinct_sorted_reverse: "distinct (map g (sorted_reverse f xs)) = distinct (map g xs)"
  by (simp add: sorted_reverse_def distinct_map set_sort distinct_sort)

lemma descending_sorted_reverse: "sorted (rev (map f (sorted_reverse f xs)))"
  by (simp add: sorted_reverse_def rev_map [symmetric] sorted_sort_key)

lemma ppg_loop_effect:
  assumes "\<forall>name \<in> set names. name \<in> fst ` set (player_games st) \<and> count0 (player_games st) name \<noteq> 0"
  shows "ppg_loop lib st names
           = Inr (map (\<lambda>name. (name, truediv lib (count0 (player_points st) name)
                                           (count0 (player_games st) name))) names)"
  using assms
proof (induction names)
  case Nil
  then show ?case by simp
next
  case (Cons name names)
  then have g: "map_of (player_games st) name = Some (count0 (player_games st) name)"
    by (simp add: map_of_count0 [of "player_games st"])
  have p: "(case map_of (player_points st) name of None \<Rightarrow> 0 | Some p \<Rightarrow> p)
             = count0 (player_points st) name"
    by (simp add: count0_def)
  from Cons have nz: "count0 (player_games st) name \<noteq> 0" by simp
  from Cons have rest: "ppg_loop lib st names
           = Inr (map (\<lambda>name. (name, truediv lib (count0 (player_points st) name)
                                           (count0 (player_games st) name))) names)"
    by simp
  show ?case
    by (simp only: ppg_loop.simps g p option.case nz if_False rest sum.case list.map)
qed


lemma summarize_result:
  assumes "summarize gs = Inr st"
  shows "loop_ok gs \<lparr>player_points = [], player_games = []\<rparr> st"
  using summarize_loop_effect [of "\<lparr>player_points = [], player_games = []\<rparr>" gs] assms
  by (auto simp: summarize_def)

lemma total_games_pos: "0 \<le> total_games gs p \<and> (0 < total_games gs p \<longleftrightarrow> appears gs p)"
proof (induction gs)
  case Nil
  then show ?case by (simp add: total_games_def appears_def)
next
  case (Cons g gs)
  have c: "(0 < int (count_list (scoreboard g) p)) = (p \<in> set (scoreboard g))"
    using count_list_0_iff [of "scoreboard g" p] by auto
  have t: "total_games (g # gs) p = int (count_list (scoreboard g) p) + total_games gs p"
    by (simp add: total_games_def board_games_def)
  have a: "appears (g # gs) p = (p \<in> set (scoreboard g) \<or> appears gs p)"
    by (simp add: appears_def)
  from Cons c show ?case unfolding t a by linarith
qed

text \<open>
  C10. For every stats value \<open>st\<close> that \<open>summarize\<close> returns on some games,
  \<open>points_per_game\<close> returns a list that holds, for each player with at least one game and
  for no one else, exactly one pair: the player and the quotient of the player's points by the
  player's games, as the division of the environment computes it; and the quotients of the
  list, read from its end, ascend: the list is sorted by average in descending order.
\<close>

theorem points_per_game_sorted:
  assumes "summarize gs = Inr st"
  shows "\<exists>ppg. points_per_game lib st = Inr ppg
           \<and> distinct (map fst ppg)
           \<and> set ppg = average lib gs ` {p. 0 < total_games gs p}
           \<and> sorted (rev (map snd ppg))"
proof -
  from summarize_result [OF assms]
  have pts: "\<And>p. count0 (player_points st) p = total_points gs p"
    and gms: "\<And>p. count0 (player_games st) p = total_games gs p"
    and kg: "fst ` set (player_games st) = {p. appears gs p}"
    and dg: "distinct (map fst (player_games st))"
    by (simp_all add: loop_ok_def count0_def)
  let ?keys = "map fst (player_games st)"
  have keys: "set ?keys = {p. 0 < total_games gs p}"
    using kg total_games_pos by auto
  have pre: "\<forall>name \<in> set ?keys. name \<in> fst ` set (player_games st)
               \<and> count0 (player_games st) name \<noteq> 0"
  proof
    fix name assume n: "name \<in> set ?keys"
    then have "0 < total_games gs name" using keys by auto
    with n show "name \<in> fst ` set (player_games st) \<and> count0 (player_games st) name \<noteq> 0"
      by (simp add: gms)
  qed
  have loop: "ppg_loop lib st ?keys = Inr (map (average lib gs) ?keys)"
    using ppg_loop_effect [OF pre, of lib] by (simp add: pts gms average_def)
  let ?ppg = "sorted_reverse snd (map (average lib gs) ?keys)"
  have r: "points_per_game lib st = Inr ?ppg"
    by (simp add: points_per_game_def loop)
  have fsts: "map fst (map (average lib gs) ?keys) = ?keys"
    by (simp add: average_def comp_def)
  have d: "distinct (map fst ?ppg)"
    using dg by (simp only: distinct_sorted_reverse fsts)
  have s: "set ?ppg = average lib gs ` {p. 0 < total_games gs p}"
  proof -
    have "set ?ppg = average lib gs ` set ?keys"
      by (simp only: set_sorted_reverse set_map)
    then show ?thesis by (simp only: keys)
  qed
  have o: "sorted (rev (map snd ?ppg))"
    by (rule descending_sorted_reverse)
  from r d s o show ?thesis by blast
qed


theorem points_per_game_sorted_witness:
  "summarize (map mk_game [[''A'', ''B'', ''C'']])
     = Inr \<lparr>player_points = [(''A'', 2), (''B'', 1), (''C'', 0)],
            player_games = [(''A'', 1), (''B'', 1), (''C'', 1)]\<rparr>
   \<and> (\<exists>ppg. points_per_game sample_lib
               \<lparr>player_points = [(''A'', 2), (''B'', 1), (''C'', 0)],
                player_games = [(''A'', 1), (''B'', 1), (''C'', 1)]\<rparr> = Inr ppg
           \<and> distinct (map fst ppg)
           \<and> set ppg = average sample_lib (map mk_game [[''A'', ''B'', ''C'']])
                          ` {p. 0 < total_games (map mk_game [[''A'', ''B'', ''C'']]) p}
           \<and> sorted (rev (map snd ppg)))"
  using points_per_game_sorted [OF summarize_ABC, of sample_lib] summarize_ABC by simp

lemma win_count_Cons:
  "win_count (g # gs) p = (if first_place g = Some p then 1 else 0) + win_count gs p"
  by (simp add: win_count_def)

lemma win_count_nonneg: "0 \<le> win_count gs p"
  by (simp add: win_count_def)

lemma wins_ok_Cons:
  assumes "scoreboard g = first # others" and "wins_ok gs (bump w first 1) w'"
  shows "wins_ok (g # gs) w w'"
proof -
  have fp: "first_place g = Some first" using assms(1) by (simp add: first_place_def)
  have pos: "\<And>p. (0 < win_count (g # gs) p) = (p = first \<or> 0 < win_count gs p)"
    using win_count_nonneg [of gs] by (auto simp: win_count_Cons fp add_pos_nonneg)
  have posset: "{p. 0 < win_count (g # gs) p} = insert first {p. 0 < win_count gs p}"
    using pos by auto
  from assms(2) have a: "\<forall>p. count0 w' p = count0 w p + win_count (g # gs) p"
    unfolding wins_ok_def by (simp add: count0_bump win_count_Cons fp)
  from assms(2) have b: "fst ` set w' = fst ` set w \<union> {p. 0 < win_count (g # gs) p}"
    unfolding wins_ok_def posset by (simp add: keys_bump)
  from assms(2) have c: "distinct (map fst w) \<longrightarrow> distinct (map fst w')"
    unfolding wins_ok_def by (simp add: distinct_bump)
  from a b c show ?thesis unfolding wins_ok_def by blast
qed

lemma get_wins_loop_effect:
  assumes "\<forall>g \<in> set gs. scoreboard g \<noteq> []"
  shows "\<exists>w'. get_wins_loop w gs = Inr w' \<and> wins_ok gs w w'"
  using assms
proof (induction gs arbitrary: w)
  case Nil
  then show ?case by (simp add: wins_ok_def win_count_def)
next
  case (Cons g gs)
  then obtain first others where sb: "scoreboard g = first # others"
    by (cases "scoreboard g") auto
  from Cons have "\<forall>g \<in> set gs. scoreboard g \<noteq> []" by simp
  from Cons.IH [OF this, of "bump w first 1"] obtain w' where
    r: "get_wins_loop (bump w first 1) gs = Inr w'" and ok: "wins_ok gs (bump w first 1) w'"
    by blast
  have "get_wins_loop w (g # gs) = Inr w'"
    using sb r by (simp add: iadd_init_zero)
  with wins_ok_Cons [OF sb ok] show ?case by blast
qed

lemma get_winner_ABA: "get_winner ABA = Inr ''A''"
  by code_simp

lemma get_winner_tie: "get_winner (map mk_game [[''A'', ''B''], [''B'', ''A'']]) = Inr ''B''"
  by code_simp

lemma win_count_pos_iff: "(0 < win_count gs p) = (\<exists>g \<in> set gs. first_place g = Some p)"
  by (auto simp: win_count_def filter_empty_conv)

lemma set_first_places: "set (List.map_filter first_place gs) = {p. 0 < win_count gs p}"
proof -
  have "set (List.map_filter first_place gs) = {p. \<exists>g \<in> set gs. first_place g = Some p}"
    by (induction gs) (auto simp: map_filter_simps split: option.splits)
  then show ?thesis by (simp add: win_count_pos_iff)
qed

lemma set_winners_table:
  "set (winners_table gs) = (\<lambda>p. (win_count gs p, p)) ` {p. 0 < win_count gs p}"
  by (simp add: winners_table_def set_first_places)

lemma get_wins_result:
  assumes "\<forall>g \<in> set gs. scoreboard g \<noteq> []"
  shows "\<exists>w. get_wins gs = Inr w
           \<and> set (map (\<lambda>(k, v). (v, k)) w) = (\<lambda>p. (win_count gs p, p)) ` {p. 0 < win_count gs p}"
proof -
  from get_wins_loop_effect [OF assms, of "[]"] obtain w where
    r: "get_wins gs = Inr w" and ok: "wins_ok gs [] w"
    by (auto simp: get_wins_def)
  from ok have cnt: "\<And>p. count0 w p = win_count gs p"
    and keys: "fst ` set w = {p. 0 < win_count gs p}"
    and d: "distinct (map fst w)"
    by (simp_all add: wins_ok_def count0_def)
  have mem: "\<And>p c. ((p, c) \<in> set w) = (0 < win_count gs p \<and> c = win_count gs p)"
  proof -
    fix p c
    have "((p, c) \<in> set w) = (map_of w p = Some c)"
      using d by simp
    also have "\<dots> = (p \<in> fst ` set w \<and> c = count0 w p)"
      by (auto simp: map_of_count0 [of w p])
    finally show "((p, c) \<in> set w) = (0 < win_count gs p \<and> c = win_count gs p)"
      by (simp add: keys cnt)
  qed
  have "set (map (\<lambda>(k, v). (v, k)) w) = (\<lambda>p. (win_count gs p, p)) ` {p. 0 < win_count gs p}"
  proof (intro set_eqI iffI)
    fix x assume "x \<in> set (map (\<lambda>(k, v). (v, k)) w)"
    then obtain p c where "(p, c) \<in> set w" and "x = (c, p)" by auto
    then show "x \<in> (\<lambda>p. (win_count gs p, p)) ` {p. 0 < win_count gs p}"
      using mem by auto
  next
    fix x assume "x \<in> (\<lambda>p. (win_count gs p, p)) ` {p. 0 < win_count gs p}"
    then obtain p where "0 < win_count gs p" and x: "x = (win_count gs p, p)" by auto
    then have "(p, win_count gs p) \<in> set w" using mem by simp
    then show "x \<in> set (map (\<lambda>(k, v). (v, k)) w)" using x by force
  qed
  with r show ?thesis by blast
qed

text \<open>
  C5, amended. For every non-empty list of games whose scoreboards all have a first place,
  \<open>get_winner\<close> returns the name of the last pair of the sorted \<open>(win_count, name)\<close>
  pairs of the players with a win: a player with a win such that every player with a win has
  either fewer wins, or as many wins and a name that is not greater in the lexicographic
  order. On the games A B, B A, A B it returns A.
\<close>

theorem get_winner_highest:
  assumes "gs \<noteq> []" and "\<forall>g \<in> set gs. scoreboard g \<noteq> []"
  shows "get_winner gs = Inr (winner_spec gs)
       \<and> 0 < win_count gs (winner_spec gs)
       \<and> (\<forall>q. 0 < win_count gs q \<longrightarrow>
             win_count gs q < win_count gs (winner_spec gs)
             \<or> (win_count gs q = win_count gs (winner_spec gs) \<and> q \<le> winner_spec gs))
       \<and> get_winner ABA = Inr ''A''"
proof -
  from get_wins_result [OF assms(2)] obtain w where
    r: "get_wins gs = Inr w"
    and pairs: "set (map (\<lambda>(k, v). (v, k)) w) = (\<lambda>p. (win_count gs p, p)) ` {p. 0 < win_count gs p}"
    by blast
  let ?tab = "winners_table gs"
  have same: "set (map (\<lambda>(k, v). (v, k)) w) = set ?tab"
    using pairs set_winners_table by simp
  obtain g where g: "g \<in> set gs" using assms(1) by (cases gs) auto
  then obtain x where "first_place g = Some x"
    using assms(2) by (cases "scoreboard g") (auto simp: first_place_def)
  with g have "0 < win_count gs x" using win_count_pos_iff by blast
  then have ne: "?tab \<noteq> []"
    using set_winners_table [of gs] by auto
  then have ne': "map (\<lambda>(k, v). (v, k)) w \<noteq> []"
    using same by auto
  then have ne'': "sort (map (\<lambda>(k, v). (v, k)) w) \<noteq> []"
    by (metis set_sort set_empty)
  have "get_winner gs = Inr (snd (last (sort (map (\<lambda>(k, v). (v, k)) w))))"
    using r ne'' by (simp add: get_winner_def Let_def)
  also have "last (sort (map (\<lambda>(k, v). (v, k)) w)) = last (sort ?tab)"
    by (rule last_sort_cong [OF same ne'])
  finally have c1: "get_winner gs = Inr (winner_spec gs)"
    by (simp add: winner_spec_def)
  from last_sort_greatest(1) [OF ne] obtain p where
    p: "0 < win_count gs p" and l: "last (sort ?tab) = (win_count gs p, p)"
    using set_winners_table [of gs] by auto
  then have wp: "winner_spec gs = p" by (simp add: winner_spec_def)
  have c3: "\<forall>q. 0 < win_count gs q \<longrightarrow>
             win_count gs q < win_count gs p \<or> (win_count gs q = win_count gs p \<and> q \<le> p)"
  proof (intro allI impI)
    fix q assume "0 < win_count gs q"
    then have "(win_count gs q, q) \<in> set ?tab"
      using set_winners_table [of gs] by auto
    from last_sort_greatest(2) [OF ne this] l
    have "(win_count gs q, q) \<le> (win_count gs p, p)" by simp
    then show "win_count gs q < win_count gs p \<or> (win_count gs q = win_count gs p \<and> q \<le> p)"
      by auto
  qed
  from c1 p c3 wp get_winner_ABA show ?thesis by simp
qed

theorem get_winner_highest_witness:
  "ABA \<noteq> [] \<and> map scoreboard ABA = [[''A'', ''B''], [''B'', ''A''], [''A'', ''B'']]
   \<and> get_winner ABA = Inr (winner_spec ABA)
   \<and> 0 < win_count ABA (winner_spec ABA)
   \<and> winner_spec ABA = ''A''
   \<and> get_winner (map mk_game [[''A'', ''B''], [''B'', ''A'']]) = Inr ''B''"
proof -
  have h1: "ABA \<noteq> []" by (simp add: ABA_def)
  have h2: "\<forall>g \<in> set ABA. scoreboard g \<noteq> []" by (simp add: ABA_def mk_game_def)
  have h3: "map scoreboard ABA = [[''A'', ''B''], [''B'', ''A''], [''A'', ''B'']]"
    by (simp add: ABA_def mk_game_def)
  from get_winner_highest [OF h1 h2]
  have a: "get_winner ABA = Inr (winner_spec ABA)"
    and b: "0 < win_count ABA (winner_spec ABA)"
    and c: "get_winner ABA = Inr ''A''"
    by blast+
  from a c have d: "winner_spec ABA = ''A''" by simp
  from h1 h3 a b d get_winner_tie show ?thesis by blast
qed

section \<open>Facts about the session state\<close>

lemma this_session_open:
  "state_session st = Some s \<Longrightarrow> this_session lib st = (s, st)"
  by (simp add: this_session_def)

lemma this_session_result:
  "this_session lib st = (s, st1) \<Longrightarrow>
   state_session st1 = Some s \<and> history st1 = history st \<and> files st1 = files st"
  by (auto simp: this_session_def Session_def split: option.splits)

lemma filter_rows_open:
  "state_session st = Some s \<Longrightarrow>
   filter_rows lib rows st = (filter (\<lambda>row. game_session_id row = Some (session_id s)) rows, st)"
  by (induction rows) (simp_all add: this_session_open)

lemma get_winner_Nil: "get_winner [] = Inl IndexError"
  by (simp add: get_winner_def get_wins_def)

lemma command_start: "strip (lower ''start'') = ''start''"
  by code_simp

lemma command_end: "strip (lower ''end'') = ''end''"
  by code_simp

lemma command_Start: "strip (lower '' Start '') = ''start''"
  by code_simp

lemma split_blank: "split ''  '' = []"
  by code_simp

lemma split_A_B: "split ''A B'' = [''A'', ''B'']"
  by code_simp

text \<open>
  With a session open and no row of the history carrying its id, \<open>end_session\<close> raises
  at line 112: the state is the one that lines 109 and 110 have made.
\<close>

lemma end_session_open_empty:
  assumes "state_session st = Some s"
    and "\<forall>g \<in> set (games (history st)). game_session_id g \<noteq> Some (session_id s)"
  shows "end_session lib st =
         (Inl IndexError,
          st\<lparr>state_session := Some (s\<lparr>end_time := Some (asctime lib (time_calls st))\<rparr>),
             time_calls := Suc (time_calls st),
             history := (history st)\<lparr>sessions := sessions (history st)
                          @ [s\<lparr>end_time := Some (asctime lib (time_calls st))\<rparr>]\<rparr>,
             files := (files st)(DB_FILENAME \<mapsto>
                        json_dump ((history st)\<lparr>sessions := sessions (history st)
                          @ [s\<lparr>end_time := Some (asctime lib (time_calls st))\<rparr>]\<rparr>))\<rparr>)"
proof -
  have empty: "filter (\<lambda>row. game_session_id row = Some (session_id s)) (games (history st)) = []"
    using assms(2) by (simp add: filter_empty_conv)
  show ?thesis
    by (simp add: end_session_def this_session_open [OF assms(1)] Session_end_def
                  save_history_def this_sessions_games_def filter_rows_open empty
                  get_winner_Nil Let_def)
qed

text \<open>
  With a session open, \<open>log_result\<close> on a text has recorded the game, counted it and saved
  the history, whatever it answers; on an empty scoreboard it raises IndexError.
\<close>

lemma log_result_open:
  assumes "state_session st = Some s"
  shows "\<exists>r. log_result lib (Some t) st =
           (r, st\<lparr>time_calls := Suc (time_calls st),
                  state_session := Some (s\<lparr>game_count := game_count s + 1\<rparr>),
                  history := (history st)\<lparr>games := games (history st)
                     @ [\<lparr>timestamp = asctime lib (time_calls st), scoreboard = split t,
                         game_session_id = Some (session_id s)\<rparr>]\<rparr>,
                  files := (files st)(DB_FILENAME \<mapsto>
                     json_dump ((history st)\<lparr>games := games (history st)
                     @ [\<lparr>timestamp = asctime lib (time_calls st), scoreboard = split t,
                         game_session_id = Some (session_id s)\<rparr>]\<rparr>))\<rparr>)
            \<and> (split t = [] \<longrightarrow> r = Inl IndexError)"
  using assms
  by (simp add: log_result_def this_session_open Let_def
                save_history_def this_sessions_games_def filter_rows_open
           split: list.splits sum.splits)

lemma log_result_counted:
  assumes "state_session st = Some s" and "counted st s"
  shows "\<exists>s'. state_session (snd (log_result lib t st)) = Some s'
              \<and> session_id s' = session_id s
              \<and> counted (snd (log_result lib t st)) s'"
proof (cases t)
  case None
  then show ?thesis using assms by (simp add: log_result_def)
next
  case (Some body)
  from log_result_open [OF assms(1), of lib body] obtain r where
    "log_result lib (Some body) st =
           (r, st\<lparr>time_calls := Suc (time_calls st),
                  state_session := Some (s\<lparr>game_count := game_count s + 1\<rparr>),
                  history := (history st)\<lparr>games := games (history st)
                     @ [\<lparr>timestamp = asctime lib (time_calls st), scoreboard = split body,
                         game_session_id = Some (session_id s)\<rparr>]\<rparr>,
                  files := (files st)(DB_FILENAME \<mapsto>
                     json_dump ((history st)\<lparr>games := games (history st)
                     @ [\<lparr>timestamp = asctime lib (time_calls st), scoreboard = split body,
                         game_session_id = Some (session_id s)\<rparr>]\<rparr>))\<rparr>)"
    by blast
  then show ?thesis using assms(2) Some by (simp add: counted_def)
qed

text \<open>
  A session that \<open>this_session\<close> has just created counts its games, when no game of the
  history carries the new id.
\<close>

lemma new_session_counted:
  assumes "state_session st = None"
    and "\<forall>g \<in> set (games (history st)). game_session_id g \<noteq> Some (uuid4 lib (uuid_calls st))"
  shows "counted (snd (this_session lib st)) (fst (this_session lib st))"
proof -
  have "filter (\<lambda>g. game_session_id g = Some (uuid4 lib (uuid_calls st))) (games (history st)) = []"
    using assms(2) by (simp add: filter_empty_conv)
  then show ?thesis
    using assms(1) by (simp add: counted_def this_session_def Session_def)
qed

section \<open>Ending a session without games\<close>

text \<open>
  C1. The claim: \<^verbatim>\<open>end\<close> on a session with zero games closes the session and does not
  throw. The code, on \<^verbatim>\<open>start\<close> then \<^verbatim>\<open>end\<close> in a process started without a file:
  the \<^verbatim>\<open>/session\<close> handler raises IndexError (\<^verbatim>\<open>sorted_results[-1]\<close> on the empty
  list), after the session has been appended to the history, and the session stays open.
\<close>

theorem end_without_games_raises:
  "startup Map.empty = Inr fresh_app
   \<and> fst (manage_session lib (Some ''end'')
            (snd (manage_session lib (Some ''start'') fresh_app))) = Inl IndexError
   \<and> state_session (snd (manage_session lib (Some ''end'')
            (snd (manage_session lib (Some ''start'') fresh_app)))) \<noteq> None
   \<and> length (sessions (history (snd (manage_session lib (Some ''end'')
            (snd (manage_session lib (Some ''start'') fresh_app)))))) = 1"
  by (simp add: startup_def load_history_def fresh_app_def manage_session_def command_start
                command_end start_session_def end_session_def this_session_def Session_def
                Session_end_def save_history_def this_sessions_games_def get_winner_Nil Let_def)

text \<open>
  C3. When \<open>end_session\<close> runs on the session \<open>s\<close> (the open one, or the one it creates)
  and no game of the history carries the id of \<open>s\<close>, it raises IndexError with the state
  already changed: \<open>s\<close> with its end time is the last entry of the history's sessions, the file
  holds that history, and \<open>s\<close> is still the open session. A second \<open>end_session\<close> raises
  again and appends a second entry, with the same session id.
\<close>

theorem end_session_no_games:
  assumes "this_session lib st = (s, st1)"
    and "\<forall>g \<in> set (games (history st)). game_session_id g \<noteq> Some (session_id s)"
  shows "\<exists>st2 st3 t2 t3.
           end_session lib st = (Inl IndexError, st2)
         \<and> sessions (history st2) = sessions (history st) @ [s\<lparr>end_time := Some t2\<rparr>]
         \<and> files st2 DB_FILENAME = Some (json_dump (history st2))
         \<and> state_session st2 = Some (s\<lparr>end_time := Some t2\<rparr>)
         \<and> end_session lib st2 = (Inl IndexError, st3)
         \<and> sessions (history st3)
             = sessions (history st) @ [s\<lparr>end_time := Some t2\<rparr>, s\<lparr>end_time := Some t3\<rparr>]
         \<and> map session_id (sessions (history st3))
             = map session_id (sessions (history st)) @ [session_id s, session_id s]
         \<and> files st3 DB_FILENAME = Some (json_dump (history st3))"
proof -
  from assms(1) have open1: "state_session st1 = Some s" and h1: "history st1 = history st"
    using this_session_result by blast+
  have same: "end_session lib st = end_session lib st1"
    using assms(1) open1 by (simp add: end_session_def this_session_open split: prod.splits)
  have e1: "\<forall>g \<in> set (games (history st1)). game_session_id g \<noteq> Some (session_id s)"
    using assms(2) h1 by simp
  note first = end_session_open_empty [OF open1 e1, of lib]
  define st2 where "st2 = snd (end_session lib st1)"
  define t2 where "t2 = asctime lib (time_calls st1)"
  have r1: "end_session lib st1 = (Inl IndexError, st2)"
    unfolding st2_def using first by simp
  have open2: "state_session st2 = Some (s\<lparr>end_time := Some t2\<rparr>)"
    unfolding st2_def t2_def using first by simp
  have hist2: "history st2
                 = (history st)\<lparr>sessions := sessions (history st) @ [s\<lparr>end_time := Some t2\<rparr>]\<rparr>"
    unfolding st2_def t2_def using first h1 by simp
  have file2: "files st2 DB_FILENAME = Some (json_dump (history st2))"
    unfolding st2_def using first by simp
  have e2: "\<forall>g \<in> set (games (history st2)).
              game_session_id g \<noteq> Some (session_id (s\<lparr>end_time := Some t2\<rparr>))"
    using assms(2) hist2 by simp
  note second = end_session_open_empty [OF open2 e2, of lib]
  define st3 where "st3 = snd (end_session lib st2)"
  define t3 where "t3 = asctime lib (time_calls st2)"
  have r2: "end_session lib st2 = (Inl IndexError, st3)"
    unfolding st3_def using second by simp
  have hist3: "sessions (history st3)
                 = sessions (history st) @ [s\<lparr>end_time := Some t2\<rparr>, s\<lparr>end_time := Some t3\<rparr>]"
    unfolding st3_def t3_def using second hist2 by simp
  have ids: "map session_id (sessions (history st3))
               = map session_id (sessions (history st)) @ [session_id s, session_id s]"
    using hist3 by simp
  have file3: "files st3 DB_FILENAME = Some (json_dump (history st3))"
    unfolding st3_def using second by simp
  show ?thesis
    using same r1 open2 hist2 file2 r2 hist3 ids file3 by auto
qed

theorem end_session_no_games_witness:
  "this_session sample_lib sample_app
     = (fst (this_session sample_lib sample_app), snd (this_session sample_lib sample_app))
   \<and> map game_session_id (games (history sample_app)) = [Some ''other'']
   \<and> session_id (fst (this_session sample_lib sample_app)) = uuid4 sample_lib 0
   \<and> fst (end_session sample_lib sample_app) = Inl IndexError
   \<and> length (sessions (history (snd (end_session sample_lib sample_app)))) = 1
   \<and> state_session (snd (end_session sample_lib sample_app)) \<noteq> None"
proof -
  have h1: "this_session sample_lib sample_app
     = (fst (this_session sample_lib sample_app), snd (this_session sample_lib sample_app))"
    by simp
  have h2: "\<forall>g \<in> set (games (history sample_app)).
         game_session_id g \<noteq> Some (session_id (fst (this_session sample_lib sample_app)))"
    by (simp add: sample_app_def other_game_def this_session_def Session_def sample_lib_def)
  from end_session_no_games [OF h1 h2] obtain st2 st3 t2 t3 where
    "end_session sample_lib sample_app = (Inl IndexError, st2)"
    "sessions (history st2) = sessions (history sample_app)
        @ [(fst (this_session sample_lib sample_app))\<lparr>end_time := Some t2\<rparr>]"
    "state_session st2 = Some ((fst (this_session sample_lib sample_app))\<lparr>end_time := Some t2\<rparr>)"
    by blast
  then show ?thesis
    using h1 by (simp add: sample_app_def other_game_def this_session_def Session_def)
qed

section \<open>Submitting an empty scoreboard\<close>

text \<open>
  C2. The claim: a submission with an empty scoreboard is rejected with a corrective message
  and no record is appended. The code, on the empty text in a process started without a
  file: the \<^verbatim>\<open>/gameover\<close> handler raises IndexError, the history holds a record with the
  empty scoreboard and the file holds that history; the next submission, \<^verbatim>\<open>A B\<close>, raises
  IndexError too, in \<^verbatim>\<open>get_wins\<close> over the games of the session.
\<close>

theorem empty_scoreboard_recorded:
  "fst (log_result lib (Some '''') fresh_app) = Inl IndexError
   \<and> map scoreboard (games (history (snd (log_result lib (Some '''') fresh_app)))) = [[]]
   \<and> files (snd (log_result lib (Some '''') fresh_app)) DB_FILENAME
       = Some (json_dump (history (snd (log_result lib (Some '''') fresh_app))))
   \<and> fst (log_result lib (Some ''A B'') (snd (log_result lib (Some '''') fresh_app)))
       = Inl IndexError"
  by (simp add: log_result_def split_def [of "[]"] split_A_B fresh_app_def this_session_def
                Session_def save_history_def this_sessions_games_def get_wins_def Let_def)

text \<open>
  C4. When the text of a submission splits to the empty scoreboard, \<open>log_result\<close> raises
  IndexError with the state already changed: a record with the empty scoreboard and the id of
  the session \<open>s\<close> (the open one, or the one it creates) is the last game of the history, the
  \<open>game_count\<close> of \<open>s\<close> is one more, and the file holds that history.
\<close>

theorem log_result_empty_scoreboard:
  assumes "split t = []" and "this_session lib st = (s, st1)"
  shows "\<exists>st'. log_result lib (Some t) st = (Inl IndexError, st')
           \<and> games (history st') = games (history st)
                @ [\<lparr>timestamp = asctime lib (time_calls st1), scoreboard = [],
                    game_session_id = Some (session_id s)\<rparr>]
           \<and> sessions (history st') = sessions (history st)
           \<and> state_session st' = Some (s\<lparr>game_count := game_count s + 1\<rparr>)
           \<and> files st' DB_FILENAME = Some (json_dump (history st'))"
proof -
  from assms(2) have open1: "state_session st1 = Some s" and h1: "history st1 = history st"
    using this_session_result by blast+
  have same: "log_result lib (Some t) st = log_result lib (Some t) st1"
    using assms(2) open1 by (simp add: log_result_def this_session_open split: prod.splits)
  from log_result_open [OF open1, of lib t] assms(1) same h1
  show ?thesis by auto
qed

theorem log_result_empty_scoreboard_witness:
  "split ''  '' = []
   \<and> this_session sample_lib sample_app
       = (fst (this_session sample_lib sample_app), snd (this_session sample_lib sample_app))
   \<and> fst (log_result sample_lib (Some ''  '') sample_app) = Inl IndexError
   \<and> map scoreboard (games (history (snd (log_result sample_lib (Some ''  '') sample_app))))
       = [[''A'', ''B''], []]
   \<and> map_option game_count (state_session (snd (log_result sample_lib (Some ''  '') sample_app)))
       = Some 1"
proof -
  have h2: "this_session sample_lib sample_app
       = (fst (this_session sample_lib sample_app), snd (this_session sample_lib sample_app))"
    by simp
  from log_result_empty_scoreboard [OF split_blank h2] obtain st' where
    "log_result sample_lib (Some ''  '') sample_app = (Inl IndexError, st')"
    "games (history st') = games (history sample_app)
                @ [\<lparr>timestamp = asctime sample_lib (time_calls (snd (this_session sample_lib sample_app))),
                    scoreboard = [],
                    game_session_id = Some (session_id (fst (this_session sample_lib sample_app)))\<rparr>]"
    "state_session st' = Some ((fst (this_session sample_lib sample_app))
                                 \<lparr>game_count := game_count (fst (this_session sample_lib sample_app)) + 1\<rparr>)"
    by blast
  then show ?thesis
    using split_blank
    by (simp add: sample_app_def other_game_def this_session_def Session_def)
qed

section \<open>The game count of the open session\<close>

text \<open>
  C6. While a session is open, every run of \<^verbatim>\<open>/gameover\<close> requests keeps the count: if the
  open session \<open>s\<close> counts its games before the run, then after it the same session (the same
  \<open>session_id\<close>) is open and its \<open>game_count\<close> is the number of games of the history that
  carry its id. Requests that raise are part of the run.
\<close>

theorem game_count_invariant:
  assumes "state_session st = Some s" and "counted st s"
  shows "\<exists>s'. state_session (log_results lib ts st) = Some s'
              \<and> session_id s' = session_id s
              \<and> counted (log_results lib ts st) s'"
  using assms
proof (induction ts arbitrary: st s)
  case Nil
  then show ?case by simp
next
  case (Cons t ts)
  from log_result_counted [OF Cons.prems, of lib t] obtain s1 where
    s1: "state_session (snd (log_result lib t st)) = Some s1"
        "session_id s1 = session_id s" "counted (snd (log_result lib t st)) s1"
    by blast
  from Cons.IH [OF s1(1) s1(3)] s1(2) show ?case by simp
qed

theorem game_count_invariant_witness:
  "state_session (snd (start_session sample_lib sample_app))
     = Some (fst (this_session sample_lib sample_app))
   \<and> counted (snd (start_session sample_lib sample_app)) (fst (this_session sample_lib sample_app))
   \<and> (\<exists>s'. state_session (log_results sample_lib [Some ''A B'', Some ''  '', None]
                             (snd (start_session sample_lib sample_app))) = Some s'
          \<and> session_id s' = session_id (fst (this_session sample_lib sample_app))
          \<and> counted (log_results sample_lib [Some ''A B'', Some ''  '', None]
                             (snd (start_session sample_lib sample_app))) s')"
proof -
  have h1: "state_session (snd (start_session sample_lib sample_app))
     = Some (fst (this_session sample_lib sample_app))"
    by (simp add: start_session_def this_session_def Session_def sample_app_def)
  have h2: "counted (snd (start_session sample_lib sample_app))
              (fst (this_session sample_lib sample_app))"
    by (simp add: counted_def start_session_def this_session_def Session_def sample_app_def
                  other_game_def sample_lib_def)
  from game_count_invariant [OF h1 h2] h1 h2 show ?thesis by blast
qed

section \<open>Starting twice\<close>

text \<open>
  C7. \<open>start_session\<close> after \<open>start_session\<close> answers the same message and leaves the state
  as the first call made it. With the session \<open>s\<close> open, \<open>start_session\<close> answers with the
  start time of \<open>s\<close> and changes nothing: no session is created and \<open>s\<close> stays the open
  session; the \<^verbatim>\<open>/session\<close> handler on a text that reads \<^verbatim>\<open>start\<close> answers that message
  and only saves the history.
\<close>

theorem start_session_idempotent:
  "start_session lib (snd (start_session lib st))
     = (fst (start_session lib st), snd (start_session lib st))
   \<and> (state_session st = Some s \<longrightarrow>
        start_session lib st = (''Session started at '' @ start_time s, st)
        \<and> (strip (lower t) = ''start'' \<longrightarrow>
             manage_session lib (Some t) st
               = (Inr (jsonify (''Session started at '' @ start_time s)),
                  save_history (history st) DB_FILENAME st)))"
proof -
  obtain s1 st1 where ts: "this_session lib st = (s1, st1)" by (cases "this_session lib st")
  then have "state_session st1 = Some s1" using this_session_result by blast
  then have "this_session lib st1 = (s1, st1)" by (rule this_session_open)
  with ts have twice: "start_session lib (snd (start_session lib st))
     = (fst (start_session lib st), snd (start_session lib st))"
    by (simp add: start_session_def)
  show ?thesis
    using twice by (simp add: start_session_def manage_session_def this_session_open)
qed

theorem start_session_idempotent_witness:
  "state_session (snd (start_session sample_lib sample_app))
     = Some (fst (this_session sample_lib sample_app))
   \<and> strip (lower '' Start '') = ''start''
   \<and> start_session sample_lib (snd (start_session sample_lib sample_app))
       = (''Session started at '' @ start_time (fst (this_session sample_lib sample_app)),
          snd (start_session sample_lib sample_app))
   \<and> state_session (snd (manage_session sample_lib (Some '' Start '')
                             (snd (start_session sample_lib sample_app))))
       = Some (fst (this_session sample_lib sample_app))"
proof -
  have h1: "state_session (snd (start_session sample_lib sample_app))
     = Some (fst (this_session sample_lib sample_app))"
    by (simp add: start_session_def this_session_def Session_def sample_app_def)
  from start_session_idempotent [of sample_lib "snd (start_session sample_lib sample_app)"
         "fst (this_session sample_lib sample_app)" "'' Start ''"] h1 command_Start
  show ?thesis by (simp add: save_history_def)
qed

section \<open>The winner over a stored empty scoreboard\<close>

text \<open>
  After the submissions \<^verbatim>\<open>A B\<close> and the empty text, the history of the process holds
  the scoreboards A, B and the empty one.
\<close>

lemma stored_boards:
  "map scoreboard (games (history (log_results sample_lib [Some ''A B'', Some ''''] fresh_app)))
     = [[''A'', ''B''], []]"
proof -
  obtain s st1 where ts: "this_session sample_lib fresh_app = (s, st1)"
    by (cases "this_session sample_lib fresh_app")
  then have open1: "state_session st1 = Some s" and h1: "history st1 = history fresh_app"
    using this_session_result by blast+
  have same: "log_result sample_lib (Some ''A B'') fresh_app
                = log_result sample_lib (Some ''A B'') st1"
    using ts open1 by (simp add: log_result_def this_session_open split: prod.splits)
  define st2 where "st2 = snd (log_result sample_lib (Some ''A B'') st1)"
  from log_result_open [OF open1, of sample_lib "''A B''"]
  have g2: "map scoreboard (games (history st2)) = [[''A'', ''B'']]"
    and open2: "state_session st2 = Some (s\<lparr>game_count := game_count s + 1\<rparr>)"
    unfolding st2_def using h1 by (auto simp: split_A_B fresh_app_def)
  define st3 where "st3 = snd (log_result sample_lib (Some '''') st2)"
  from log_result_open [OF open2, of sample_lib "''''"]
  have g3: "map scoreboard (games (history st3)) = [[''A'', ''B''], []]"
    unfolding st3_def using g2 by (auto simp: split_def)
  show ?thesis
    using g3 same by (simp add: st3_def st2_def)
qed

text \<open>
  C5, as stated for every non-empty list of games, fails on the list of the games A, B and the
  empty scoreboard, a list that the program stores: \<open>get_winner\<close> raises IndexError there
  (\<^verbatim>\<open>scoreboard[0]\<close> in \<^verbatim>\<open>get_wins\<close>) and returns no name.
\<close>

theorem get_winner_empty_scoreboard_counterexample:
  "[mk_game [''A'', ''B''], mk_game []] \<noteq> []
   \<and> get_winner [mk_game [''A'', ''B''], mk_game []] = Inl IndexError
   \<and> map scoreboard (games (history (log_results sample_lib [Some ''A B'', Some ''''] fresh_app)))
       = map scoreboard [mk_game [''A'', ''B''], mk_game []]"
proof -
  have "get_winner [mk_game [''A'', ''B''], mk_game []] = Inl IndexError"
    by (simp add: get_winner_def get_wins_def mk_game_def iadd_init_zero)
  then show ?thesis
    using stored_boards by (simp add: mk_game_def)
qed

section \<open>Persistence\<close>

text \<open>
  C8. For every history document \<open>h\<close>, every file name and every earlier content of the
  disk: after \<open>save_history h location\<close>, loading \<open>location\<close> into the initially empty
  history gives \<open>h\<close> again, the same games and the same sessions in the same order; and a
  process started on the saved \<^verbatim>\<open>game_history.json\<close> has \<open>h\<close> as its history.
\<close>

theorem save_load_roundtrip:
  "load_history location (files (save_history h location st)) = Inr h
   \<and> startup (files (save_history h DB_FILENAME st))
       = Inr \<lparr>history = h, state_session = None,
              files = files (save_history h DB_FILENAME st),
              time_calls = 0, uuid_calls = 0\<rparr>"
  by (simp add: startup_def load_history_def save_history_def json_dump_def json_load_def
                dict_update_def)

end
